theory Spec2Isabelle
  imports Complex_Main "HOL-Library.AList" "HOL-Library.Log_Nat"
begin

section \<open>JavaScript numbers\<close>

text \<open>
  The values that \<open>src/src/app.js\<close> averages are JavaScript numbers. A finite number is
  modelled by its real value; the three special values that the arithmetic of the language can
  produce, and that the program's validity test (\<open>!isNaN(v)\<close>) tells apart, are \<open>PInf\<close>, \<open>NInf\<close>
  and \<open>NaN\<close>: the two infinities pass the test, \<open>NaN\<close> does not.

  The operations of this section are exact on finite numbers: no rounding, no overflow, no
  underflow, a single zero. They treat the special values as the language does. The functions
  of the program that compute with numbers are given twice: over these exact operations, and,
  with the suffix \<open>_b64\<close>, over the rounded operations of the section on binary64
  arithmetic, which are the ones the program runs.
\<close>

datatype jsnum = Fin real | PInf | NInf | NaN

text \<open>\<open>a + b\<close>\<close>

fun js_add :: "jsnum \<Rightarrow> jsnum \<Rightarrow> jsnum" where
  "js_add NaN _ = NaN"
| "js_add _ NaN = NaN"
| "js_add (Fin a) (Fin b) = Fin (a + b)"
| "js_add PInf NInf = NaN"
| "js_add NInf PInf = NaN"
| "js_add PInf _ = PInf"
| "js_add _ PInf = PInf"
| "js_add NInf _ = NInf"
| "js_add _ NInf = NInf"

text \<open>unary minus, and \<open>a - b\<close>\<close>

fun js_neg :: "jsnum \<Rightarrow> jsnum" where
  "js_neg (Fin a) = Fin (- a)"
| "js_neg PInf = NInf"
| "js_neg NInf = PInf"
| "js_neg NaN = NaN"

definition js_sub :: "jsnum \<Rightarrow> jsnum \<Rightarrow> jsnum" where
  "js_sub a b = js_add a (js_neg b)"

text \<open>\<open>a * b\<close>: an infinity times zero is \<open>NaN\<close>, otherwise the signs multiply.\<close>

fun js_mul :: "jsnum \<Rightarrow> jsnum \<Rightarrow> jsnum" where
  "js_mul NaN _ = NaN"
| "js_mul _ NaN = NaN"
| "js_mul (Fin a) (Fin b) = Fin (a * b)"
| "js_mul (Fin a) PInf = (if a = 0 then NaN else if 0 < a then PInf else NInf)"
| "js_mul (Fin a) NInf = (if a = 0 then NaN else if 0 < a then NInf else PInf)"
| "js_mul PInf (Fin b) = (if b = 0 then NaN else if 0 < b then PInf else NInf)"
| "js_mul NInf (Fin b) = (if b = 0 then NaN else if 0 < b then NInf else PInf)"
| "js_mul PInf PInf = PInf"
| "js_mul PInf NInf = NInf"
| "js_mul NInf PInf = NInf"
| "js_mul NInf NInf = PInf"

text \<open>\<open>a / b\<close>: division by zero gives an infinity (or \<open>NaN\<close> for \<open>0 / 0\<close>), never an error.\<close>

fun js_div :: "jsnum \<Rightarrow> jsnum \<Rightarrow> jsnum" where
  "js_div NaN _ = NaN"
| "js_div _ NaN = NaN"
| "js_div (Fin a) (Fin b) =
     (if b = 0 then (if a = 0 then NaN else if 0 < a then PInf else NInf) else Fin (a / b))"
| "js_div (Fin a) PInf = Fin 0"
| "js_div (Fin a) NInf = Fin 0"
| "js_div PInf (Fin b) = (if 0 \<le> b then PInf else NInf)"
| "js_div NInf (Fin b) = (if 0 \<le> b then NInf else PInf)"
| "js_div PInf PInf = NaN"
| "js_div PInf NInf = NaN"
| "js_div NInf PInf = NaN"
| "js_div NInf NInf = NaN"

text \<open>\<open>a ** 2\<close>\<close>

fun js_sq :: "jsnum \<Rightarrow> jsnum" where
  "js_sq (Fin a) = Fin (a * a)"
| "js_sq PInf = PInf"
| "js_sq NInf = PInf"
| "js_sq NaN = NaN"

text \<open>\<open>Math.sqrt(a)\<close>\<close>

fun js_sqrt :: "jsnum \<Rightarrow> jsnum" where
  "js_sqrt (Fin a) = (if a < 0 then NaN else Fin (sqrt a))"
| "js_sqrt PInf = PInf"
| "js_sqrt NInf = NaN"
| "js_sqrt NaN = NaN"

text \<open>\<open>Math.abs(a)\<close>\<close>

fun js_abs :: "jsnum \<Rightarrow> jsnum" where
  "js_abs (Fin a) = Fin \<bar>a\<bar>"
| "js_abs PInf = PInf"
| "js_abs NInf = PInf"
| "js_abs NaN = NaN"

text \<open>\<open>a <= b\<close> and \<open>a > b\<close>: every comparison with \<open>NaN\<close> is false.\<close>

fun js_le :: "jsnum \<Rightarrow> jsnum \<Rightarrow> bool" where
  "js_le NaN _ = False"
| "js_le _ NaN = False"
| "js_le (Fin a) (Fin b) = (a \<le> b)"
| "js_le NInf _ = True"
| "js_le _ PInf = True"
| "js_le PInf _ = False"
| "js_le _ NInf = False"

fun js_gt :: "jsnum \<Rightarrow> jsnum \<Rightarrow> bool" where
  "js_gt NaN _ = False"
| "js_gt _ NaN = False"
| "js_gt (Fin a) (Fin b) = (b < a)"
| "js_gt PInf PInf = False"
| "js_gt PInf _ = True"
| "js_gt NInf _ = False"
| "js_gt _ NInf = True"
| "js_gt _ PInf = False"

text \<open>\<open>Math.max(a, b)\<close>: \<open>NaN\<close> if either argument is.\<close>

fun js_max :: "jsnum \<Rightarrow> jsnum \<Rightarrow> jsnum" where
  "js_max NaN _ = NaN"
| "js_max _ NaN = NaN"
| "js_max a b = (if js_gt b a then b else a)"

text \<open>\<open>Math.max(...xs)\<close>: the maximum of no arguments is \<open>-Infinity\<close>.\<close>

definition Math_max :: "jsnum list \<Rightarrow> jsnum" where
  "Math_max xs = foldl js_max NInf xs"

text \<open>
  The number that a comparison reads from a field that may hold \<open>null\<close>: \<open>null\<close> converts
  to \<open>0\<close>.
\<close>

fun nullable_to_number :: "jsnum option \<Rightarrow> jsnum" where
  "nullable_to_number None = Fin 0"
| "nullable_to_number (Some a) = a"

text \<open>\<open>typeof v === 'number' && !isNaN(v)\<close>, on a value that is a number.\<close>

definition is_valid_number :: "jsnum \<Rightarrow> bool" where
  "is_valid_number v = (v \<noteq> NaN)"

text \<open>\<open>xs.reduce((a, b) => a + b, 0)\<close>\<close>

definition js_sum :: "jsnum list \<Rightarrow> jsnum" where
  "js_sum xs = foldl (\<lambda>s v. js_add s v) (Fin 0) xs"

section \<open>The filtered average\<close>

record filtered_result =
  average :: "jsnum option"
  filteredHistory :: "jsnum list"
  removedCount :: nat

text \<open>\<open>calculateFilteredAverage\<close> (app.js, lines 400 to 425).\<close>

definition calculateFilteredAverage :: "jsnum list \<Rightarrow> filtered_result" where
  "calculateFilteredAverage history =
     (let n = length history in
      if n = 0 then \<lparr>average = None, filteredHistory = [], removedCount = 0\<rparr>
      else if n < 10 then
        \<lparr>average = Some (js_div (js_sum history) (Fin (real n))),
         filteredHistory = history, removedCount = 0\<rparr>
      else
        let mean = js_div (js_sum history) (Fin (real n));
            stdDev = js_sqrt (js_div
                       (foldl (\<lambda>s v. js_add s (js_sq (js_sub v mean))) (Fin 0) history)
                       (Fin (real n)));
            threshold = js_mul (Fin 2) stdDev;
            kept = filter (\<lambda>v. js_le (js_abs (js_sub v mean)) threshold) history;
            removed = n - length kept;
            avg = (if length kept = 0 then None
                   else Some (js_div (js_sum kept) (Fin (real (length kept)))))
        in \<lparr>average = avg, filteredHistory = kept, removedCount = removed\<rparr>)"

section \<open>Bottles and the registry\<close>

text \<open>
  The object stored per colour in \<open>bottlesByColor\<close> (app.js, lines 565 to 570), and the two
  constants of lines 23 and 24.
\<close>

record bottle =
  percentHistory :: "jsnum list"
  initialPercent :: "jsnum option"
  maxAvgPercent :: "jsnum option"
  capacity :: jsnum

definition HISTORY_SIZE :: nat where
  "HISTORY_SIZE = 10"

definition BOTTLE_CAPACITY_LITERS :: jsnum where
  "BOTTLE_CAPACITY_LITERS = Fin 1"

text \<open>
  \<open>isValidPercent\<close> (line 560). \<open>currentPercent\<close> is the reading after the conversion of
  line 559, which always yields a number; a reading that does not convert (a missing field, a
  text that is no number) is \<open>NaN\<close> there.
\<close>

definition isValidPercent :: "jsnum \<Rightarrow> bool" where
  "isValidPercent currentPercent = (currentPercent \<noteq> NaN)"

text \<open>\<open>xs.shift()\<close>: removes the first element, and does nothing to an empty array.\<close>

fun shift :: "'a list \<Rightarrow> 'a list" where
  "shift [] = []"
| "shift (x # xs) = xs"

text \<open>The object created for a colour seen for the first time (lines 565 to 570).\<close>

definition new_bottle :: "jsnum \<Rightarrow> bottle" where
  "new_bottle currentPercent =
     \<lparr>percentHistory = (if isValidPercent currentPercent then [currentPercent] else []),
      initialPercent = (if isValidPercent currentPercent then Some currentPercent else None),
      maxAvgPercent = None,
      capacity = BOTTLE_CAPACITY_LITERS\<rparr>"

text \<open>The branch of a valid reading for a known bottle (lines 575 to 597).\<close>

definition ingest_valid :: "jsnum \<Rightarrow> bottle \<Rightarrow> bottle" where
  "ingest_valid currentPercent b =
     (let pushed = percentHistory b @ [currentPercent];
          hist = (if length pushed > HISTORY_SIZE then shift pushed else pushed);
          validHistory = filter is_valid_number hist;
          maxAvg =
            (if length validHistory \<ge> HISTORY_SIZE then
               (case average (calculateFilteredAverage validHistory) of
                  None \<Rightarrow> maxAvgPercent b
                | Some avgPercent \<Rightarrow>
                    (case maxAvgPercent b of
                       None \<Rightarrow> Some avgPercent
                     | Some old \<Rightarrow> if js_gt avgPercent old then Some avgPercent else Some old))
             else maxAvgPercent b);
          maxPercent = Math_max hist;
          initial = (if js_gt maxPercent (nullable_to_number (initialPercent b))
                     then Some maxPercent else initialPercent b)
      in b\<lparr>percentHistory := hist, initialPercent := initial, maxAvgPercent := maxAvg\<rparr>)"

text \<open>The branch of an invalid reading for a known bottle (lines 598 to 613).\<close>

definition ingest_invalid :: "bottle \<Rightarrow> bottle" where
  "ingest_invalid b =
     (let hist = (if length (percentHistory b) > 0 then shift (percentHistory b)
                  else percentHistory b);
          validHistory = filter is_valid_number hist;
          maxAvg =
            (if length validHistory \<ge> HISTORY_SIZE then
               (let avgPercent = js_div (js_sum validHistory) (Fin (real (length validHistory)))
                in case maxAvgPercent b of
                     None \<Rightarrow> Some avgPercent
                   | Some old \<Rightarrow> if js_gt avgPercent old then Some avgPercent else Some old)
             else if length validHistory < HISTORY_SIZE then None
             else maxAvgPercent b)
      in b\<lparr>percentHistory := hist, maxAvgPercent := maxAvg\<rparr>)"

text \<open>One reading for a bottle that exists (lines 572 to 613).\<close>

definition ingest :: "jsnum \<Rightarrow> bottle \<Rightarrow> bottle" where
  "ingest currentPercent b =
     (if isValidPercent currentPercent then ingest_valid currentPercent b
      else ingest_invalid b)"

text \<open>
  \<open>bottlesByColor\<close> is a \<open>Map\<close>, which keeps its keys in the order of their first insertion:
  an association list with one entry per key. One parsed score item with its colour (\<open>None\<close>
  when \<open>bottle_color\<close> is \<open>null\<close> or missing) and its reading is folded in by lines 562
  to 615.
\<close>

type_synonym registry = "(string \<times> bottle) list"

definition onData_item :: "string option \<Rightarrow> jsnum \<Rightarrow> registry \<Rightarrow> registry" where
  "onData_item color currentPercent reg =
     (case color of
        None \<Rightarrow> reg
      | Some c \<Rightarrow>
          (case map_of reg c of
             None \<Rightarrow> AList.update c (new_bottle currentPercent) reg
           | Some b \<Rightarrow> AList.update c (ingest currentPercent b) reg))"

text \<open>The readings of one colour, in order of arrival, from the registry given.\<close>

fun onData_items :: "string \<Rightarrow> jsnum list \<Rightarrow> registry \<Rightarrow> registry" where
  "onData_items c [] reg = reg"
| "onData_items c (r # rs) reg = onData_items c rs (onData_item (Some c) r reg)"

section \<open>The table\<close>

text \<open>
  What \<open>updateBottleTable\<close> (lines 450 to 497) computes for one bottle. Reading a property
  of \<open>null\<close> raises a \<open>TypeError\<close>: line 476 calls \<open>avgCurrentPercent.toFixed(1)\<close> whenever
  the bottle has valid data, and \<open>calculateFilteredAverage\<close> may have returned the average
  \<open>null\<close>. \<open>toFixed\<close> of a number (also of \<open>NaN\<close> or an infinity) returns a text. The
  element of the page that receives the table is taken to exist.
\<close>

datatype js_error = TypeError

record row =
  avgCurrentPercent :: "jsnum option"
  outliers :: nat  \<comment> \<open>\<open>filteredResult.removedCount\<close>\<close>
  consumedPercent :: "jsnum option"
  consumedLiters :: "jsnum option"

definition bottle_row :: "bottle \<Rightarrow> js_error + row" where
  "bottle_row b =
     (let history = filter is_valid_number (percentHistory b);
          hasValidData = (length history > 0);
          filteredResult =
            (if hasValidData then calculateFilteredAverage history
             else \<lparr>average = None, filteredHistory = [], removedCount = 0\<rparr>)
      in case average filteredResult of
           None \<Rightarrow>
             if hasValidData then Inl TypeError
             else Inr \<lparr>avgCurrentPercent = None, outliers = removedCount filteredResult,
                       consumedPercent = None, consumedLiters = None\<rparr>
         | Some avg \<Rightarrow>
             (case (if hasValidData then maxAvgPercent b else None) of
                None \<Rightarrow>
                  Inr \<lparr>avgCurrentPercent = Some avg, outliers = removedCount filteredResult,
                       consumedPercent = None, consumedLiters = None\<rparr>
              | Some maxAvg \<Rightarrow>
                  (let consumed = js_max (Fin 0) (js_sub maxAvg avg);
                       liters = js_mul (js_div consumed (Fin 100)) (capacity b)
                   in Inr \<lparr>avgCurrentPercent = Some avg,
                           outliers = removedCount filteredResult,
                           consumedPercent = Some consumed, consumedLiters = Some liters\<rparr>)))"

text \<open>
  The rows of the whole table: the first row that raises aborts the call. The table is
  sorted by colour for display only; the rows are given here in the order of the registry.
\<close>

fun updateBottleTable :: "registry \<Rightarrow> js_error + (string \<times> row) list" where
  "updateBottleTable [] = Inr []"
| "updateBottleTable ((color, b) # rest) =
     (case bottle_row b of
        Inl e \<Rightarrow> Inl e
      | Inr r \<Rightarrow>
          (case updateBottleTable rest of
             Inl e \<Rightarrow> Inl e
           | Inr rs \<Rightarrow> Inr ((color, r) # rs)))"

section \<open>The filtered average on finite samples\<close>

text \<open>
  The quantities that the specification names, over exact reals: the mean, the population
  standard deviation, and the samples within two standard deviations of the mean.
\<close>

definition mean_of :: "real list \<Rightarrow> real" where
  "mean_of rs = sum_list rs / real (length rs)"

definition pop_std_dev :: "real list \<Rightarrow> real" where
  "pop_std_dev rs = sqrt (sum_list (map (\<lambda>v. (v - mean_of rs)\<^sup>2) rs) / real (length rs))"

definition within_two_sigma :: "real list \<Rightarrow> real \<Rightarrow> bool" where
  "within_two_sigma rs v = (\<bar>v - mean_of rs\<bar> \<le> 2 * pop_std_dev rs)"

definition retained :: "real list \<Rightarrow> real list" where
  "retained rs = filter (within_two_sigma rs) rs"

definition discarded :: "real list \<Rightarrow> real list" where
  "discarded rs = filter (\<lambda>v. \<not> within_two_sigma rs v) rs"

text \<open>The numbers that are neither an infinity nor \<open>NaN\<close>.\<close>

fun is_finite :: "jsnum \<Rightarrow> bool" where
  "is_finite (Fin a) = True"
| "is_finite _ = False"

section \<open>Runs\<close>

text \<open>
  The bottle of one colour after its first reading, which creates it, and the readings that
  follow, in order of arrival.
\<close>

definition bottle_after :: "jsnum \<Rightarrow> jsnum list \<Rightarrow> bottle" where
  "bottle_after first rest = foldl (\<lambda>b r. ingest r b) (new_bottle first) rest"

text \<open>What holds of every bottle that a run produces.\<close>

definition bottle_inv :: "bottle \<Rightarrow> bool" where
  "bottle_inv b =
     (length (percentHistory b) \<le> HISTORY_SIZE \<and>
      list_all is_valid_number (percentHistory b) \<and>
      (case maxAvgPercent b of
         None \<Rightarrow> True
       | Some h \<Rightarrow> is_finite h \<and> length (percentHistory b) = HISTORY_SIZE) \<and>
      capacity b = BOTTLE_CAPACITY_LITERS)"

section \<open>Binary64 arithmetic\<close>

text \<open>
  The numbers of the language are IEEE 754 binary64 values. The operations \<open>js_add\<close> to
  \<open>js_sqrt\<close> above give the result that an operation has with unbounded precision; the
  operation of the language returns that result rounded to the nearest binary64 value, ties to
  the even significand, with overflow to an infinity and gradual underflow. The definitions of
  this section add the rounding. Comparison, negation, absolute value and maximum are exact in
  binary64, so \<open>js_le\<close>, \<open>js_gt\<close>, \<open>js_neg\<close>, \<open>js_abs\<close> and \<open>js_max\<close> serve for both.
  The two zeros are identified: nothing here divides by a computed value, so the sign of a zero
  is never observed.
\<close>

text \<open>The binary exponent of a positive real \<open>a\<close>: the \<open>e\<close> with \<open>2\<^sup>e \<le> a < 2\<^sup>e\<^sup>+\<^sup>1\<close>.\<close>

definition ilog2 :: "real \<Rightarrow> int" where
  "ilog2 a = (if 1 \<le> a then bitlen \<lfloor>a\<rfloor> - 1 else - bitlen (\<lceil>1 / a\<rceil> - 1))"

text \<open>The nearest integer, the even one of the two when they are equally near.\<close>

definition round_half_even :: "real \<Rightarrow> int" where
  "round_half_even s =
     (let f = \<lfloor>s\<rfloor>; d = s - of_int f
      in if d < 1 / 2 then f else if 1 / 2 < d then f + 1 else if even f then f else f + 1)"

text \<open>
  Rounding to binary64. A value with exponent \<open>e\<close> is rounded to a multiple of
  \<open>2\<^sup>e\<^sup>-\<^sup>5\<^sup>2\<close> (53 significant bits), and to a multiple of \<open>2\<^sup>-\<^sup>1\<^sup>0\<^sup>7\<^sup>4\<close> below the
  normal range; a result of \<open>2\<^sup>1\<^sup>0\<^sup>2\<^sup>4\<close> or more is an infinity.
\<close>

definition b64_round :: "real \<Rightarrow> jsnum" where
  "b64_round x =
     (if x = 0 then Fin 0
      else
        let e = ilog2 \<bar>x\<bar>;
            t = max (e - 52) (- 1074);
            y = of_int (round_half_even (\<bar>x\<bar> / 2 powi t)) * 2 powi t
        in if 2 powi 1024 \<le> y then (if 0 < x then PInf else NInf)
           else Fin (if 0 < x then y else - y))"

fun b64 :: "jsnum \<Rightarrow> jsnum" where
  "b64 (Fin r) = b64_round r"
| "b64 PInf = PInf"
| "b64 NInf = NInf"
| "b64 NaN = NaN"

text \<open>
  The operations of the language. \<open>a ** 2\<close> is taken to be the correctly rounded square, as
  \<open>a * a\<close> is.
\<close>

definition b64_add :: "jsnum \<Rightarrow> jsnum \<Rightarrow> jsnum" where
  "b64_add a b = b64 (js_add a b)"

definition b64_sub :: "jsnum \<Rightarrow> jsnum \<Rightarrow> jsnum" where
  "b64_sub a b = b64 (js_sub a b)"

definition b64_mul :: "jsnum \<Rightarrow> jsnum \<Rightarrow> jsnum" where
  "b64_mul a b = b64 (js_mul a b)"

definition b64_div :: "jsnum \<Rightarrow> jsnum \<Rightarrow> jsnum" where
  "b64_div a b = b64 (js_div a b)"

definition b64_sq :: "jsnum \<Rightarrow> jsnum" where
  "b64_sq a = b64 (js_sq a)"

definition b64_sqrt :: "jsnum \<Rightarrow> jsnum" where
  "b64_sqrt a = b64 (js_sqrt a)"

definition b64_sum :: "jsnum list \<Rightarrow> jsnum" where
  "b64_sum xs = foldl (\<lambda>s v. b64_add s v) (Fin 0) xs"

text \<open>\<open>calculateFilteredAverage\<close> (lines 400 to 425) in binary64.\<close>

definition calculateFilteredAverage_b64 :: "jsnum list \<Rightarrow> filtered_result" where
  "calculateFilteredAverage_b64 history =
     (let n = length history in
      if n = 0 then \<lparr>average = None, filteredHistory = [], removedCount = 0\<rparr>
      else if n < 10 then
        \<lparr>average = Some (b64_div (b64_sum history) (Fin (real n))),
         filteredHistory = history, removedCount = 0\<rparr>
      else
        let mean = b64_div (b64_sum history) (Fin (real n));
            stdDev = b64_sqrt (b64_div
                       (foldl (\<lambda>s v. b64_add s (b64_sq (b64_sub v mean))) (Fin 0) history)
                       (Fin (real n)));
            threshold = b64_mul (Fin 2) stdDev;
            kept = filter (\<lambda>v. js_le (js_abs (b64_sub v mean)) threshold) history;
            removed = n - length kept;
            avg = (if length kept = 0 then None
                   else Some (b64_div (b64_sum kept) (Fin (real (length kept)))))
        in \<lparr>average = avg, filteredHistory = kept, removedCount = removed\<rparr>)"

text \<open>The two branches of \<open>onData\<close> for a known bottle (lines 575 to 613) in binary64.\<close>

definition ingest_valid_b64 :: "jsnum \<Rightarrow> bottle \<Rightarrow> bottle" where
  "ingest_valid_b64 currentPercent b =
     (let pushed = percentHistory b @ [currentPercent];
          hist = (if length pushed > HISTORY_SIZE then shift pushed else pushed);
          validHistory = filter is_valid_number hist;
          maxAvg =
            (if length validHistory \<ge> HISTORY_SIZE then
               (case average (calculateFilteredAverage_b64 validHistory) of
                  None \<Rightarrow> maxAvgPercent b
                | Some avgPercent \<Rightarrow>
                    (case maxAvgPercent b of
                       None \<Rightarrow> Some avgPercent
                     | Some old \<Rightarrow> if js_gt avgPercent old then Some avgPercent else Some old))
             else maxAvgPercent b);
          maxPercent = Math_max hist;
          initial = (if js_gt maxPercent (nullable_to_number (initialPercent b))
                     then Some maxPercent else initialPercent b)
      in b\<lparr>percentHistory := hist, initialPercent := initial, maxAvgPercent := maxAvg\<rparr>)"

definition ingest_invalid_b64 :: "bottle \<Rightarrow> bottle" where
  "ingest_invalid_b64 b =
     (let hist = (if length (percentHistory b) > 0 then shift (percentHistory b)
                  else percentHistory b);
          validHistory = filter is_valid_number hist;
          maxAvg =
            (if length validHistory \<ge> HISTORY_SIZE then
               (let avgPercent = b64_div (b64_sum validHistory) (Fin (real (length validHistory)))
                in case maxAvgPercent b of
                     None \<Rightarrow> Some avgPercent
                   | Some old \<Rightarrow> if js_gt avgPercent old then Some avgPercent else Some old)
             else if length validHistory < HISTORY_SIZE then None
             else maxAvgPercent b)
      in b\<lparr>percentHistory := hist, maxAvgPercent := maxAvg\<rparr>)"

definition ingest_b64 :: "jsnum \<Rightarrow> bottle \<Rightarrow> bottle" where
  "ingest_b64 currentPercent b =
     (if isValidPercent currentPercent then ingest_valid_b64 currentPercent b
      else ingest_invalid_b64 b)"

definition bottle_after_b64 :: "jsnum \<Rightarrow> jsnum list \<Rightarrow> bottle" where
  "bottle_after_b64 first rest = foldl (\<lambda>b r. ingest_b64 r b) (new_bottle first) rest"

text \<open>The row of one bottle (lines 450 to 497) in binary64.\<close>

definition bottle_row_b64 :: "bottle \<Rightarrow> js_error + row" where
  "bottle_row_b64 b =
     (let history = filter is_valid_number (percentHistory b);
          hasValidData = (length history > 0);
          filteredResult =
            (if hasValidData then calculateFilteredAverage_b64 history
             else \<lparr>average = None, filteredHistory = [], removedCount = 0\<rparr>)
      in case average filteredResult of
           None \<Rightarrow>
             if hasValidData then Inl TypeError
             else Inr \<lparr>avgCurrentPercent = None, outliers = removedCount filteredResult,
                       consumedPercent = None, consumedLiters = None\<rparr>
         | Some avg \<Rightarrow>
             (case (if hasValidData then maxAvgPercent b else None) of
                None \<Rightarrow>
                  Inr \<lparr>avgCurrentPercent = Some avg, outliers = removedCount filteredResult,
                       consumedPercent = None, consumedLiters = None\<rparr>
              | Some maxAvg \<Rightarrow>
                  (let consumed = js_max (Fin 0) (b64_sub maxAvg avg);
                       liters = b64_mul (b64_div consumed (Fin 100)) (capacity b)
                   in Inr \<lparr>avgCurrentPercent = Some avg,
                           outliers = removedCount filteredResult,
                           consumedPercent = Some consumed, consumedLiters = Some liters\<rparr>)))"

text \<open>
  The quantities of the filtered average as binary64 computes them: the mean, the population
  standard deviation, and the samples whose deviation from that mean is at most twice that
  standard deviation.
\<close>

definition b64_mean :: "jsnum list \<Rightarrow> jsnum" where
  "b64_mean xs = b64_div (b64_sum xs) (Fin (real (length xs)))"

definition b64_sq_dev_sum :: "jsnum list \<Rightarrow> jsnum" where
  "b64_sq_dev_sum xs =
     foldl (\<lambda>s v. b64_add s (b64_sq (b64_sub v (b64_mean xs)))) (Fin 0) xs"

definition b64_std_dev :: "jsnum list \<Rightarrow> jsnum" where
  "b64_std_dev xs = b64_sqrt (b64_div (b64_sq_dev_sum xs) (Fin (real (length xs))))"

definition b64_within_two_sigma :: "jsnum list \<Rightarrow> jsnum \<Rightarrow> bool" where
  "b64_within_two_sigma xs v =
     js_le (js_abs (b64_sub v (b64_mean xs))) (b64_mul (Fin 2) (b64_std_dev xs))"

definition b64_retained :: "jsnum list \<Rightarrow> jsnum list" where
  "b64_retained xs = filter (b64_within_two_sigma xs) xs"

definition b64_discarded :: "jsnum list \<Rightarrow> jsnum list" where
  "b64_discarded xs = filter (\<lambda>v. \<not> b64_within_two_sigma xs v) xs"

section \<open>Arithmetic of the model\<close>

lemma foldl_add_Fin: "foldl (\<lambda>s v. js_add s v) (Fin a) (map Fin rs) = Fin (a + sum_list rs)"
  by (induction rs arbitrary: a) (simp_all add: add.assoc)

lemma js_sum_Fin: "js_sum (map Fin rs) = Fin (sum_list rs)"
  by (simp add: js_sum_def foldl_add_Fin)

lemma foldl_sq_Fin:
  "foldl (\<lambda>s v. js_add s (js_sq (js_sub v (Fin m)))) (Fin a) (map Fin rs)
     = Fin (a + sum_list (map (\<lambda>v. (v - m)\<^sup>2) rs))"
  by (induction rs arbitrary: a) (simp_all add: js_sub_def add.assoc power2_eq_square)

lemma sum_list_sq_nonneg: "0 \<le> sum_list (map (\<lambda>v::real. (v - m)\<^sup>2) rs)"
  by (induction rs) simp_all

lemma variance_nonneg:
  "0 \<le> sum_list (map (\<lambda>v. (v - mean_of rs)\<^sup>2) rs) / real (length rs)"
  using sum_list_sq_nonneg [of "mean_of rs" rs] by simp

lemma filter_map_Fin: "filter P (map Fin rs) = map Fin (filter (\<lambda>r. P (Fin r)) rs)"
  by (induction rs) simp_all

lemma sum_list_strict_lower:
  "rs \<noteq> [] \<Longrightarrow> \<forall>v\<in>set rs. c < f v \<Longrightarrow> c * real (length rs) < sum_list (map f rs)"
proof (induction rs)
  case Nil
  then show ?case by simp
next
  case (Cons r rs)
  show ?case
  proof (cases "rs = []")
    case True
    with Cons.prems show ?thesis by simp
  next
    case False
    with Cons have "c * real (length rs) < sum_list (map f rs)" by simp
    moreover from Cons.prems have "c < f r" by simp
    ultimately show ?thesis by (simp add: algebra_simps)
  qed
qed

lemma le_two_sqrt_iff: "0 \<le> y \<Longrightarrow> (\<bar>x\<bar> \<le> 2 * sqrt y) = (x\<^sup>2 \<le> 4 * y)"
proof -
  assume "0 \<le> y"
  have "2 * sqrt y = sqrt (4 * y)" by (simp add: real_sqrt_mult)
  moreover have "\<bar>x\<bar> = sqrt (x\<^sup>2)" by simp
  ultimately show ?thesis by (metis real_sqrt_le_iff)
qed

text \<open>
  Some sample is always within two standard deviations of the mean: otherwise the squared
  deviations would sum to more than four times their own sum.
\<close>

lemma some_sample_within:
  assumes "rs \<noteq> []"
  shows "\<exists>v\<in>set rs. within_two_sigma rs v"
proof (rule ccontr)
  assume neg: "\<not> ?thesis"
  let ?S = "sum_list (map (\<lambda>v. (v - mean_of rs)\<^sup>2) rs)"
  let ?n = "real (length rs)"
  have n: "0 < ?n" using assms by simp
  have S: "0 \<le> ?S" by (rule sum_list_sq_nonneg)
  from neg have "\<forall>v\<in>set rs. 4 * (?S / ?n) < (v - mean_of rs)\<^sup>2"
    by (auto simp: within_two_sigma_def pop_std_dev_def le_two_sqrt_iff [OF variance_nonneg]
          not_le)
  from sum_list_strict_lower [OF assms this]
  have "4 * (?S / ?n) * ?n < ?S" .
  with n have "4 * ?S < ?S" by simp
  with S show False by simp
qed

lemma retained_nonempty: "rs \<noteq> [] \<Longrightarrow> retained rs \<noteq> []"
  using some_sample_within [of rs] by (auto simp: retained_def filter_empty_conv)

lemma length_discarded: "length (discarded rs) = length rs - length (retained rs)"
  using sum_length_filter_compl [of "within_two_sigma rs" rs]
  by (simp add: discarded_def retained_def)

lemma calculateFilteredAverage_Fin:
  "calculateFilteredAverage (map Fin rs) =
     (if length rs = 0 then \<lparr>average = None, filteredHistory = [], removedCount = 0\<rparr>
      else if length rs < 10 then
        \<lparr>average = Some (Fin (mean_of rs)), filteredHistory = map Fin rs, removedCount = 0\<rparr>
      else
        \<lparr>average = Some (Fin (mean_of (retained rs))),
         filteredHistory = map Fin (retained rs),
         removedCount = length rs - length (retained rs)\<rparr>)"
proof (cases "rs = []")
  case True
  then show ?thesis by (simp add: calculateFilteredAverage_def)
next
  case False
  then have ne: "retained rs \<noteq> []" by (rule retained_nonempty)
  have mean: "js_div (js_sum (map Fin rs)) (Fin (real (length rs))) = Fin (mean_of rs)"
    using False by (simp add: js_sum_Fin mean_of_def)
  have sd: "js_sqrt (js_div
              (foldl (\<lambda>s v. js_add s (js_sq (js_sub v (Fin (mean_of rs))))) (Fin 0) (map Fin rs))
              (Fin (real (length rs)))) = Fin (pop_std_dev rs)"
    using False variance_nonneg [of rs] by (simp add: foldl_sq_Fin pop_std_dev_def not_less)
  have kept: "filter (\<lambda>v. js_le (js_abs (js_sub v (Fin (mean_of rs))))
                   (Fin (2 * pop_std_dev rs))) (map Fin rs) = map Fin (retained rs)"
    by (simp add: filter_map_Fin retained_def within_two_sigma_def [abs_def] js_sub_def)
  have avg: "js_div (js_sum (map Fin (retained rs))) (Fin (real (length (retained rs))))
               = Fin (mean_of (retained rs))"
    using ne by (simp add: js_sum_Fin mean_of_def)
  show ?thesis
    using False ne
    by (simp add: calculateFilteredAverage_def Let_def mean sd kept avg
             del: length_filter_map)
qed

section \<open>The filtered average on samples that are not finite\<close>

text \<open>
  From ten samples on, one sample that is an infinity or \<open>NaN\<close> makes the threshold
  \<open>NaN\<close>: every comparison fails, nothing is retained and the average is \<open>null\<close>.
\<close>

lemma js_add_NaN_right: "js_add a NaN = NaN"
  by (cases a) simp_all

lemma foldl_add_from_NaN: "foldl (\<lambda>s v. js_add s (f v)) NaN xs = NaN"
  by (induction xs) simp_all

lemma foldl_add_hits_NaN:
  "v \<in> set xs \<Longrightarrow> f v = NaN \<Longrightarrow> foldl (\<lambda>s v. js_add s (f v)) a xs = NaN"
proof (induction xs arbitrary: a)
  case Nil
  then show ?case by simp
next
  case (Cons x xs)
  show ?case
  proof (cases "f x = NaN")
    case True
    then show ?thesis by (simp add: js_add_NaN_right foldl_add_from_NaN)
  next
    case False
    with Cons.prems have "v \<in> set xs" by auto
    from Cons.IH [OF this Cons.prems(2)] show ?thesis by simp
  qed
qed

lemma foldl_add_from_PInf:
  "a = PInf \<or> a = NaN \<Longrightarrow> foldl (\<lambda>s v. js_add s v) a xs = PInf \<or> foldl (\<lambda>s v. js_add s v) a xs = NaN"
proof (induction xs arbitrary: a)
  case Nil
  then show ?case by simp
next
  case (Cons x xs)
  from Cons.prems have "js_add a x = PInf \<or> js_add a x = NaN"
    by (cases x) auto
  from Cons.IH [OF this] show ?case by simp
qed

lemma foldl_add_from_NInf:
  "a = NInf \<or> a = NaN \<Longrightarrow> foldl (\<lambda>s v. js_add s v) a xs = NInf \<or> foldl (\<lambda>s v. js_add s v) a xs = NaN"
proof (induction xs arbitrary: a)
  case Nil
  then show ?case by simp
next
  case (Cons x xs)
  from Cons.prems have "js_add a x = NInf \<or> js_add a x = NaN"
    by (cases x) auto
  from Cons.IH [OF this] show ?case by simp
qed

lemma foldl_add_hits_PInf:
  "PInf \<in> set xs \<Longrightarrow> foldl (\<lambda>s v. js_add s v) a xs = PInf \<or> foldl (\<lambda>s v. js_add s v) a xs = NaN"
proof (induction xs arbitrary: a)
  case Nil
  then show ?case by simp
next
  case (Cons x xs)
  show ?case
  proof (cases "x = PInf")
    case True
    have "js_add a PInf = PInf \<or> js_add a PInf = NaN" by (cases a) simp_all
    from foldl_add_from_PInf [OF this] True show ?thesis by simp
  next
    case False
    with Cons.prems have "PInf \<in> set xs" by auto
    from Cons.IH [OF this] show ?thesis by simp
  qed
qed

lemma foldl_add_hits_NInf:
  "NInf \<in> set xs \<Longrightarrow> foldl (\<lambda>s v. js_add s v) a xs = NInf \<or> foldl (\<lambda>s v. js_add s v) a xs = NaN"
proof (induction xs arbitrary: a)
  case Nil
  then show ?case by simp
next
  case (Cons x xs)
  show ?case
  proof (cases "x = NInf")
    case True
    have "js_add a NInf = NInf \<or> js_add a NInf = NaN" by (cases a) simp_all
    from foldl_add_from_NInf [OF this] True show ?thesis by simp
  next
    case False
    with Cons.prems have "NInf \<in> set xs" by auto
    from Cons.IH [OF this] show ?thesis by simp
  qed
qed

lemma sub_mean_NaN:
  assumes "v \<in> set xs" and "\<not> is_finite v"
  shows "js_sub v (js_div (js_sum xs) (Fin (real (length xs)))) = NaN"
proof (cases v)
  case (Fin a)
  with assms show ?thesis by simp
next
  case PInf
  with assms have "js_sum xs = PInf \<or> js_sum xs = NaN"
    unfolding js_sum_def by (simp add: foldl_add_hits_PInf)
  with PInf show ?thesis by (auto simp: js_sub_def)
next
  case NInf
  with assms have "js_sum xs = NInf \<or> js_sum xs = NaN"
    unfolding js_sum_def by (simp add: foldl_add_hits_NInf)
  with NInf show ?thesis by (auto simp: js_sub_def)
next
  case NaN
  then show ?thesis by (simp add: js_sub_def js_add_NaN_right)
qed

lemma js_le_NaN_right: "js_le a NaN = False"
  by (cases a) simp_all

lemma calculateFilteredAverage_not_finite:
  assumes "10 \<le> length xs" and "v \<in> set xs" and "\<not> is_finite v"
  shows "calculateFilteredAverage xs =
           \<lparr>average = None, filteredHistory = [], removedCount = length xs\<rparr>"
proof -
  let ?mean = "js_div (js_sum xs) (Fin (real (length xs)))"
  have "js_sq (js_sub v ?mean) = NaN"
    using sub_mean_NaN [OF assms(2,3)] by simp
  from foldl_add_hits_NaN [OF assms(2), of "\<lambda>v. js_sq (js_sub v ?mean)", OF this]
  have "foldl (\<lambda>s v. js_add s (js_sq (js_sub v ?mean))) (Fin 0) xs = NaN" .
  then show ?thesis
    using assms(1) by (simp add: calculateFilteredAverage_def Let_def js_le_NaN_right)
qed

lemma all_finite_map_Fin: "\<forall>v\<in>set xs. is_finite v \<Longrightarrow> \<exists>rs. xs = map Fin rs"
proof (induction xs)
  case Nil
  then show ?case by simp
next
  case (Cons x xs)
  then obtain rs where "xs = map Fin rs" by auto
  moreover from Cons.prems obtain a where "x = Fin a" by (cases x) auto
  ultimately have "x # xs = map Fin (a # rs)" by simp
  then show ?case by (rule exI)
qed

lemma average_Some_finite:
  assumes "10 \<le> length xs" and "average (calculateFilteredAverage xs) = Some a"
  shows "\<exists>rs. xs = map Fin rs \<and> a = Fin (mean_of (retained rs))"
proof -
  have "\<forall>v\<in>set xs. is_finite v"
  proof (rule ccontr)
    assume "\<not> ?thesis"
    then obtain v where "v \<in> set xs" "\<not> is_finite v" by blast
    from calculateFilteredAverage_not_finite [OF assms(1) this] assms(2) show False by simp
  qed
  then obtain rs where rs: "xs = map Fin rs" using all_finite_map_Fin by blast
  from assms(1) rs have "\<not> length rs < 10" "rs \<noteq> []" by auto
  with assms(2) rs have "a = Fin (mean_of (retained rs))"
    by (simp add: calculateFilteredAverage_Fin)
  with rs show ?thesis by blast
qed

section \<open>The steps of a bottle\<close>


lemma percentHistory_ingest_valid:
  "percentHistory (ingest_valid p b) =
     (if length (percentHistory b) < HISTORY_SIZE then percentHistory b @ [p]
      else drop 1 (percentHistory b) @ [p])"
  by (cases "percentHistory b") (simp_all add: ingest_valid_def Let_def HISTORY_SIZE_def)

lemma percentHistory_ingest_invalid:
  "percentHistory (ingest_invalid b) = drop 1 (percentHistory b)"
  by (cases "percentHistory b") (simp_all add: ingest_invalid_def Let_def)

lemma maxAvgPercent_ingest_valid:
  assumes "maxAvgPercent b = Some old"
  shows "\<exists>new. maxAvgPercent (ingest_valid p b) = Some new \<and> (new = old \<or> js_gt new old) \<and>
           (\<forall>a. old = Fin a \<longrightarrow> (\<exists>c. new = Fin c \<and> a \<le> c))"
proof -
  let ?hist = "percentHistory (ingest_valid p b)"
  let ?valid = "filter is_valid_number ?hist"
  have step: "maxAvgPercent (ingest_valid p b) =
      (if length ?valid \<ge> HISTORY_SIZE then
         (case average (calculateFilteredAverage ?valid) of
            None \<Rightarrow> Some old
          | Some avgPercent \<Rightarrow> if js_gt avgPercent old then Some avgPercent else Some old)
       else Some old)"
    using assms by (simp add: ingest_valid_def Let_def split: option.splits)
  show ?thesis
  proof (cases "length ?valid \<ge> HISTORY_SIZE")
    case False
    with step show ?thesis by simp
  next
    case True
    show ?thesis
    proof (cases "average (calculateFilteredAverage ?valid)")
      case None
      with step True show ?thesis by simp
    next
      case (Some avg)
      from True have "10 \<le> length ?valid" by (simp add: HISTORY_SIZE_def)
      from average_Some_finite [OF this Some] obtain c where c: "avg = Fin c" by blast
      show ?thesis
      proof (cases "js_gt avg old")
        case True
        with step Some \<open>length ?valid \<ge> HISTORY_SIZE\<close>
        have "maxAvgPercent (ingest_valid p b) = Some avg" by simp
        with True c show ?thesis by auto
      next
        case False
        with step Some \<open>length ?valid \<ge> HISTORY_SIZE\<close>
        have "maxAvgPercent (ingest_valid p b) = Some old" by simp
        then show ?thesis by simp
      qed
    qed
  qed
qed

lemma ingest_invalid_bounded:
  assumes "length (percentHistory b) \<le> HISTORY_SIZE"
  shows "length (filter is_valid_number (percentHistory (ingest_invalid b))) < HISTORY_SIZE \<and>
         maxAvgPercent (ingest_invalid b) = None"
proof -
  have "length (percentHistory (ingest_invalid b)) < HISTORY_SIZE"
    using assms
    by (cases "percentHistory b") (simp_all add: percentHistory_ingest_invalid HISTORY_SIZE_def)
  moreover have "length (filter is_valid_number (percentHistory (ingest_invalid b)))
                   \<le> length (percentHistory (ingest_invalid b))"
    by (rule length_filter_le)
  ultimately have short:
    "length (filter is_valid_number (percentHistory (ingest_invalid b))) < HISTORY_SIZE"
    by (rule le_less_trans [rotated])
  then have "maxAvgPercent (ingest_invalid b) = None"
    by (simp add: ingest_invalid_def Let_def split: if_splits)
  with short show ?thesis by simp
qed

lemma bottle_inv_new: "bottle_inv (new_bottle p)"
  by (simp add: bottle_inv_def new_bottle_def HISTORY_SIZE_def isValidPercent_def is_valid_number_def)

lemma bottle_inv_ingest_invalid:
  assumes "bottle_inv b"
  shows "bottle_inv (ingest_invalid b)"
proof -
  from assms have len: "length (percentHistory b) \<le> HISTORY_SIZE" by (simp add: bottle_inv_def)
  have "maxAvgPercent (ingest_invalid b) = None"
    using ingest_invalid_bounded [OF len] by simp
  moreover have "capacity (ingest_invalid b) = capacity b" by (simp add: ingest_invalid_def Let_def)
  moreover have "list_all is_valid_number (drop 1 (percentHistory b))"
    using assms by (cases "percentHistory b") (simp_all add: bottle_inv_def)
  moreover have "length (drop 1 (percentHistory b)) \<le> HISTORY_SIZE"
    using len by simp
  ultimately show ?thesis using assms
    by (simp add: bottle_inv_def percentHistory_ingest_invalid)
qed

lemma bottle_inv_ingest_valid:
  assumes "bottle_inv b" and "isValidPercent p"
  shows "bottle_inv (ingest_valid p b)"
proof -
  let ?b' = "ingest_valid p b"
  from assms(1) have len: "length (percentHistory b) \<le> HISTORY_SIZE"
    and val: "list_all is_valid_number (percentHistory b)"
    and cap: "capacity b = BOTTLE_CAPACITY_LITERS"
    by (simp_all add: bottle_inv_def)
  have len': "length (percentHistory ?b') \<le> HISTORY_SIZE"
    using len by (simp add: percentHistory_ingest_valid HISTORY_SIZE_def)
  have val': "list_all is_valid_number (percentHistory ?b')"
    using val assms(2)
    by (cases "percentHistory b")
       (simp_all add: percentHistory_ingest_valid isValidPercent_def is_valid_number_def)
  have cap': "capacity ?b' = BOTTLE_CAPACITY_LITERS"
    using cap by (simp add: ingest_valid_def Let_def)
  have hw: "case maxAvgPercent ?b' of None \<Rightarrow> True
            | Some h \<Rightarrow> is_finite h \<and> length (percentHistory ?b') = HISTORY_SIZE"
  proof (cases "maxAvgPercent ?b'")
    case None
    then show ?thesis by simp
  next
    case (Some h)
    show ?thesis
    proof (cases "maxAvgPercent b")
      case (Some old)
      with assms(1) have o: "is_finite old" "length (percentHistory b) = HISTORY_SIZE"
        by (simp_all add: bottle_inv_def)
      from o(1) obtain a where a: "old = Fin a" by (cases old) simp_all
      from maxAvgPercent_ingest_valid [OF Some, of p] \<open>maxAvgPercent ?b' = Some h\<close> a
      have "is_finite h" by auto
      moreover from o(2) have "length (percentHistory ?b') = HISTORY_SIZE"
        by (simp add: percentHistory_ingest_valid HISTORY_SIZE_def)
      ultimately show ?thesis using \<open>maxAvgPercent ?b' = Some h\<close> by simp
    next
      case None
      let ?valid = "filter is_valid_number (percentHistory ?b')"
      have step: "maxAvgPercent ?b' =
        (if length ?valid \<ge> HISTORY_SIZE then average (calculateFilteredAverage ?valid) else None)"
        using None by (simp add: ingest_valid_def Let_def split: option.splits)
      with Some have big: "length ?valid \<ge> HISTORY_SIZE"
        and avg: "average (calculateFilteredAverage ?valid) = Some h"
        by (simp_all split: if_splits)
      from big have "10 \<le> length ?valid" by (simp add: HISTORY_SIZE_def)
      from average_Some_finite [OF this avg] have "is_finite h" by auto
      moreover have "length ?valid \<le> length (percentHistory ?b')" by (rule length_filter_le)
      with big len' have "length (percentHistory ?b') = HISTORY_SIZE" by linarith
      ultimately show ?thesis using Some by simp
    qed
  qed
  from len' val' cap' hw show ?thesis by (simp add: bottle_inv_def)
qed

lemma bottle_inv_ingest: "bottle_inv b \<Longrightarrow> bottle_inv (ingest p b)"
  by (simp add: ingest_def bottle_inv_ingest_valid bottle_inv_ingest_invalid)

lemma bottle_inv_foldl: "bottle_inv b \<Longrightarrow> bottle_inv (foldl (\<lambda>b r. ingest r b) b rs)"
  by (induction rs arbitrary: b) (simp_all add: bottle_inv_ingest)

lemma bottle_inv_bottle_after: "bottle_inv (bottle_after first rest)"
  by (simp add: bottle_after_def bottle_inv_foldl bottle_inv_new)


text \<open>The registry of a run for a single colour holds the bottle of that run.\<close>

lemma onData_items_known:
  "onData_items c rs [(c, b)] = [(c, foldl (\<lambda>b r. ingest r b) b rs)]"
  by (induction rs arbitrary: b) (simp_all add: onData_item_def)

lemma onData_items_fresh: "onData_items c (first # rest) [] = [(c, bottle_after first rest)]"
  by (simp add: onData_item_def onData_items_known bottle_after_def)

section \<open>Worked runs\<close>

text \<open>
  On concrete samples the comparison with twice a square root is decided on the squares.
\<close>

lemma le_two_sqrt_num:
  "0 \<le> x \<Longrightarrow> 0 \<le> y \<Longrightarrow> (x \<le> 2 * sqrt y) = (x\<^sup>2 \<le> 4 * y)"
  using le_two_sqrt_iff [of y x] by simp

lemma scenario_cfa:
  "calculateFilteredAverage
     [Fin 10, Fin 20, Fin 30, Fin 40, Fin 50, Fin 60, Fin 70, Fin 80, Fin 90, Fin 100] =
   \<lparr>average = Some (Fin 55),
    filteredHistory =
      [Fin 10, Fin 20, Fin 30, Fin 40, Fin 50, Fin 60, Fin 70, Fin 80, Fin 90, Fin 100],
    removedCount = 0\<rparr>"
  by (simp add: calculateFilteredAverage_def Let_def js_sum_def js_sub_def le_two_sqrt_num)

lemma infinite_sample_cfa:
  "calculateFilteredAverage
     [Fin 50, Fin 50, Fin 50, Fin 50, Fin 50, Fin 50, Fin 50, Fin 50, Fin 50, PInf] =
   \<lparr>average = None, filteredHistory = [], removedCount = 10\<rparr>"
  using calculateFilteredAverage_not_finite
    [of "[Fin 50, Fin 50, Fin 50, Fin 50, Fin 50, Fin 50, Fin 50, Fin 50, Fin 50, PInf]" PInf]
  by simp

section \<open>Rounding to binary64\<close>

text \<open>The exponent that the rounding uses is the binary exponent of its argument.\<close>

lemma ilog2_bounds:
  assumes "0 < a"
  shows "2 powi ilog2 a \<le> a \<and> a < 2 powi (ilog2 a + 1)"
proof (cases "1 \<le> a")
  case True
  let ?k = "\<lfloor>a\<rfloor>"
  from True have k: "0 < ?k" by simp
  from bitlen_bounds [OF k] have b: "2 ^ nat (bitlen ?k - 1) \<le> ?k" "?k < 2 ^ nat (bitlen ?k)"
    by simp_all
  from k have bl: "1 \<le> bitlen ?k" by (simp add: bitlen_alt_def)
  have e: "ilog2 a = bitlen ?k - 1" using True by (simp add: ilog2_def)
  have "(2::real) powi (bitlen ?k - 1) = of_int (2 ^ nat (bitlen ?k - 1))"
    using bl by (simp add: power_int_def)
  also have "\<dots> \<le> of_int ?k" using b(1) by (simp only: of_int_le_iff)
  also have "\<dots> \<le> a" by simp
  finally have lo: "2 powi ilog2 a \<le> a" by (simp add: e)
  from b(2) have "?k + 1 \<le> 2 ^ nat (bitlen ?k)" by simp
  then have "of_int (?k + 1) \<le> (of_int (2 ^ nat (bitlen ?k)) :: real)" by (simp only: of_int_le_iff)
  moreover have "a < of_int (?k + 1)" by simp
  ultimately have "a < of_int (2 ^ nat (bitlen ?k))" by linarith
  also have "of_int (2 ^ nat (bitlen ?k)) = (2::real) powi (ilog2 a + 1)"
    using bl by (simp add: e power_int_def)
  finally show ?thesis using lo by simp
next
  case False
  let ?c = "\<lceil>1 / a\<rceil> - 1"
  from False assms have inv: "1 < 1 / a" by simp
  then have "1 < \<lceil>1 / a\<rceil>" by (simp add: less_ceiling_iff)
  then have c: "0 < ?c" by simp
  from bitlen_bounds [OF c] have b: "2 ^ nat (bitlen ?c - 1) \<le> ?c" "?c < 2 ^ nat (bitlen ?c)"
    by simp_all
  from c have bl: "1 \<le> bitlen ?c" by (simp add: bitlen_alt_def)
  have e: "ilog2 a = - bitlen ?c" using False by (simp add: ilog2_def)
  from b(2) have "\<lceil>1 / a\<rceil> \<le> 2 ^ nat (bitlen ?c)" by simp
  then have "1 / a \<le> of_int (2 ^ nat (bitlen ?c))" by (simp only: ceiling_le_iff)
  then have "1 / a \<le> 2 ^ nat (bitlen ?c)" by simp
  with assms have "1 / 2 ^ nat (bitlen ?c) \<le> a"
    by (simp add: field_simps)
  moreover have "(2::real) powi (- bitlen ?c) = 1 / 2 ^ nat (bitlen ?c)"
    using bl by (simp add: power_int_def field_simps)
  ultimately have lo: "2 powi ilog2 a \<le> a" by (simp add: e)
  from b(1) have "2 ^ nat (bitlen ?c - 1) < \<lceil>1 / a\<rceil>" by simp
  then have "of_int (2 ^ nat (bitlen ?c - 1)) < 1 / a" by (simp only: less_ceiling_iff)
  then have "2 ^ nat (bitlen ?c - 1) < 1 / a" by simp
  with assms have "a < 1 / 2 ^ nat (bitlen ?c - 1)"
    by (simp add: field_simps)
  moreover have "(2::real) powi (- bitlen ?c + 1) = 1 / 2 ^ nat (bitlen ?c - 1)"
  proof -
    have "- bitlen ?c + 1 = - (bitlen ?c - 1)" by simp
    moreover have "0 \<le> bitlen ?c - 1" using bl by simp
    ultimately show ?thesis
      by (cases "bitlen ?c - 1 = 0") (simp_all add: power_int_def field_simps)
  qed
  ultimately have "a < 2 powi (ilog2 a + 1)" by (simp add: e)
  with lo show ?thesis by simp
qed

text \<open>
  Evaluation of the rounding on concrete values unfolds its definition; the bit length is
  computed by its recursion. Some values: one tenth, a tie that goes to the even significand
  and one that goes up, a tie between zero and the least positive number, a number below the
  normal range, and the two sides of the overflow threshold.
\<close>

lemmas b64_eval = b64_round_def ilog2_def round_half_even_def Let_def compute_bitlen power_int_def
  divide_simps

lemma b64_round_examples:
  "b64_round (1 / 10) = Fin (3602879701896397 / 36028797018963968)"
  "b64_round (- (1 / 10)) = Fin (- (3602879701896397 / 36028797018963968))"
  "b64_round (2 ^ 53 + 1) = Fin (2 ^ 53)"
  "b64_round (2 ^ 53 + 3) = Fin (2 ^ 53 + 4)"
  "b64_round (1 / 2 ^ 1075) = Fin 0"
  "b64_round (3 / 2 ^ 1075) = Fin (1 / 2 ^ 1073)"
  "b64_round (2 ^ 1024 - 2 ^ 970) = PInf"
  "b64_round (2 ^ 1024 - 2 ^ 970 - 1) = Fin (2 ^ 1024 - 2 ^ 971)"
  by (simp_all add: b64_eval)

section \<open>The filtered average in binary64\<close>

lemma calculateFilteredAverage_b64_eq:
  "calculateFilteredAverage_b64 xs =
     (if length xs = 0 then \<lparr>average = None, filteredHistory = [], removedCount = 0\<rparr>
      else if length xs < 10 then
        \<lparr>average = Some (b64_mean xs), filteredHistory = xs, removedCount = 0\<rparr>
      else
        \<lparr>average = (if b64_retained xs = [] then None else Some (b64_mean (b64_retained xs))),
         filteredHistory = b64_retained xs,
         removedCount = length (b64_discarded xs)\<rparr>)"
proof -
  have "length (b64_discarded xs) = length xs - length (b64_retained xs)"
    using sum_length_filter_compl [of "b64_within_two_sigma xs" xs]
    by (simp add: b64_discarded_def b64_retained_def)
  then show ?thesis
    by (simp add: calculateFilteredAverage_b64_def Let_def b64_mean_def b64_retained_def
          b64_within_two_sigma_def [abs_def] b64_std_dev_def b64_sq_dev_sum_def)
qed

lemma ce_mean:
  "b64_mean [Fin 80, Fin 80, Fin 80, Fin 80, Fin 80, Fin 80, Fin 80, Fin 80, Fin 62, Fin 62]
     = Fin (2688086027586765 / 35184372088832)"
  by (simp add: b64_mean_def b64_sum_def b64_add_def b64_div_def b64_eval)

text \<open>
  Rounding a square root: the integer nearest to a scaled root is found from the squares of
  the two half-way points around it.
\<close>

lemma round_half_even_near:
  assumes lo: "of_int m - 1 / 2 < s" and hi: "s < of_int m + 1 / 2"
  shows "round_half_even s = m"
proof -
  have "\<lfloor>s\<rfloor> = m \<or> \<lfloor>s\<rfloor> = m - 1"
  proof -
    have "of_int (m - 1) \<le> s" using lo by simp
    then have "m - 1 \<le> \<lfloor>s\<rfloor>" by (simp only: le_floor_iff)
    moreover have "s < of_int (m + 1)" using hi by simp
    then have "\<lfloor>s\<rfloor> < m + 1" by (simp only: floor_less_iff)
    ultimately show ?thesis by linarith
  qed
  then show ?thesis
  proof
    assume f: "\<lfloor>s\<rfloor> = m"
    with hi show ?thesis by (simp add: round_half_even_def Let_def)
  next
    assume f: "\<lfloor>s\<rfloor> = m - 1"
    with lo have "1 / 2 < s - of_int (m - 1)" by simp
    with f show ?thesis by (simp add: round_half_even_def Let_def)
  qed
qed

lemma sqrt_between:
  assumes "0 \<le> lo" and "lo\<^sup>2 < z" and "z < hi\<^sup>2" and "0 \<le> hi"
  shows "lo < sqrt z \<and> sqrt z < hi"
proof -
  have "sqrt (lo\<^sup>2) < sqrt z" using assms(2) by (simp only: real_sqrt_less_iff)
  moreover have "sqrt z < sqrt (hi\<^sup>2)" using assms(3) by (simp only: real_sqrt_less_iff)
  ultimately show ?thesis using assms(1,4) by simp
qed

lemma b64_round_posI:
  assumes "0 < x" and "ilog2 x = e" and "max (e - 52) (- 1074) = t"
    and "round_half_even (x / 2 powi t) = m" and "of_int m * 2 powi t < (2::real) powi 1024"
  shows "b64_round x = Fin (of_int m * 2 powi t)"
  using assms by (simp add: b64_round_def Let_def)

lemma ce_sqrt:
  "b64_sqrt (Fin (7295831396340203 / 140737488355328)) = Fin (8106479329266893 / 1125899906842624)"
proof -
  let ?q = "7295831396340203 / 140737488355328 :: real"
  have f: "7 < sqrt ?q \<and> sqrt ?q < 8"
    by (rule sqrt_between) simp_all
  then have fl: "\<lfloor>sqrt ?q\<rfloor> = 7" by (simp add: floor_unique)
  have pos: "0 < sqrt ?q" using f by simp
  have e: "ilog2 (sqrt ?q) = 2"
    using f fl by (simp add: ilog2_def compute_bitlen)
  have t: "max (2 - 52) (- 1074) = (- 50 :: int)" by simp
  have n: "8106479329266893 - 1 / 2 < sqrt (?q * 2 ^ 100) \<and>
           sqrt (?q * 2 ^ 100) < 8106479329266893 + 1 / 2"
    by (rule sqrt_between) (simp_all add: power2_eq_square)
  have s: "sqrt ?q * 2 ^ 50 = sqrt (?q * 2 ^ 100)"
  proof -
    have "sqrt ((2::real) ^ 100) = 2 ^ 50"
      by (rule real_sqrt_unique) simp_all
    then show ?thesis by (simp only: real_sqrt_mult)
  qed
  have p: "sqrt ?q / 2 powi (- 50) = sqrt ?q * 2 ^ 50"
    by (simp add: power_int_def divide_simps)
  have r: "round_half_even (sqrt ?q / 2 powi (- 50)) = 8106479329266893"
    unfolding p s using n by (intro round_half_even_near) simp_all
  have b: "of_int 8106479329266893 * 2 powi (- 50) < (2::real) powi 1024"
    by (simp add: power_int_def divide_simps)
  have "b64_round (sqrt ?q) = Fin (of_int 8106479329266893 * 2 powi (- 50))"
    by (rule b64_round_posI [OF pos e t r b])
  also have "of_int 8106479329266893 * 2 powi (- 50) = (8106479329266893 / 1125899906842624 :: real)"
    by (simp add: power_int_def divide_simps)
  finally show ?thesis by (simp add: b64_sqrt_def)
qed

lemma ce_sq_dev_sum:
  "b64_sq_dev_sum [Fin 80, Fin 80, Fin 80, Fin 80, Fin 80, Fin 80, Fin 80, Fin 80, Fin 62, Fin 62]
     = Fin (4559894622712627 / 8796093022208)"
  by (simp add: b64_sq_dev_sum_def ce_mean b64_add_def b64_sub_def b64_sq_def js_sub_def b64_eval)

lemma ce_std_dev:
  "b64_std_dev [Fin 80, Fin 80, Fin 80, Fin 80, Fin 80, Fin 80, Fin 80, Fin 80, Fin 62, Fin 62]
     = Fin (8106479329266893 / 1125899906842624)"
proof -
  have "b64_div (Fin (4559894622712627 / 8796093022208)) (Fin 10)
          = Fin (7295831396340203 / 140737488355328)"
    by (simp add: b64_div_def b64_eval)
  then show ?thesis by (simp add: b64_std_dev_def ce_sq_dev_sum ce_sqrt)
qed

lemma ce_retained:
  "b64_retained [Fin 80, Fin 80, Fin 80, Fin 80, Fin 80, Fin 80, Fin 80, Fin 80, Fin 62, Fin 62]
     = [Fin 80, Fin 80, Fin 80, Fin 80, Fin 80, Fin 80, Fin 80, Fin 80]"
proof -
  have thr: "b64_mul (Fin 2) (Fin (8106479329266893 / 1125899906842624))
               = Fin (8106479329266893 / 562949953421312)"
    by (simp add: b64_mul_def b64_eval)
  have d80: "b64_sub (Fin 80) (Fin (2688086027586765 / 35184372088832))
               = Fin (126663739519795 / 35184372088832)"
    by (simp add: b64_sub_def js_sub_def b64_eval)
  have d62: "b64_sub (Fin 62) (Fin (2688086027586765 / 35184372088832))
               = Fin (- (506654958079181 / 35184372088832))"
    by (simp add: b64_sub_def js_sub_def b64_eval)
  show ?thesis
    by (simp add: b64_retained_def b64_within_two_sigma_def ce_mean ce_std_dev thr d80 d62)
qed

lemma ce_mean_retained:
  "b64_mean [Fin 80, Fin 80, Fin 80, Fin 80, Fin 80, Fin 80, Fin 80, Fin 80] = Fin 80"
  by (simp add: b64_mean_def b64_sum_def b64_add_def b64_div_def b64_eval)

lemma ce_cfa:
  "calculateFilteredAverage_b64
     [Fin 80, Fin 80, Fin 80, Fin 80, Fin 80, Fin 80, Fin 80, Fin 80, Fin 62, Fin 62] =
   \<lparr>average = Some (Fin 80),
    filteredHistory = [Fin 80, Fin 80, Fin 80, Fin 80, Fin 80, Fin 80, Fin 80, Fin 80],
    removedCount = 2\<rparr>"
proof -
  have "b64_discarded
          [Fin 80, Fin 80, Fin 80, Fin 80, Fin 80, Fin 80, Fin 80, Fin 80, Fin 62, Fin 62]
        = [Fin 62, Fin 62]"
  proof -
    have thr: "b64_mul (Fin 2) (Fin (8106479329266893 / 1125899906842624))
               = Fin (8106479329266893 / 562949953421312)"
      by (simp add: b64_mul_def b64_eval)
    have d80: "b64_sub (Fin 80) (Fin (2688086027586765 / 35184372088832))
               = Fin (126663739519795 / 35184372088832)"
      by (simp add: b64_sub_def js_sub_def b64_eval)
    have d62: "b64_sub (Fin 62) (Fin (2688086027586765 / 35184372088832))
               = Fin (- (506654958079181 / 35184372088832))"
      by (simp add: b64_sub_def js_sub_def b64_eval)
    show ?thesis
      by (simp add: b64_discarded_def b64_within_two_sigma_def ce_mean ce_std_dev thr d80 d62)
  qed
  then show ?thesis by (simp add: calculateFilteredAverage_b64_eq ce_retained ce_mean_retained)
qed

text \<open>
  In exact arithmetic both readings of 62 among eight of 80 lie exactly twice the standard
  deviation from the mean, and are retained.
\<close>

lemma tie_exact:
  "mean_of [80, 80, 80, 80, 80, 80, 80, 80, 62, 62] = 382 / 5 \<and>
   retained [80, 80, 80, 80, 80, 80, 80, 80, 62, 62] =
     [80, 80, 80, 80, 80, 80, 80, 80, 62, 62] \<and>
   discarded [80, 80, 80, 80, 80, 80, 80, 80, 62, 62] = []"
proof -
  have m: "mean_of [80, 80, 80, 80, 80, 80, 80, 80, 62, 62] = 382 / 5"
    by (simp add: mean_of_def)
  have w: "within_two_sigma [80, 80, 80, 80, 80, 80, 80, 80, 62, 62] v =
             ((v - 382 / 5)\<^sup>2 \<le> 5184 / 25)" for v
    by (simp add: within_two_sigma_def pop_std_dev_def m le_two_sqrt_iff power2_eq_square)
  show ?thesis
    by (simp add: m retained_def discarded_def w power2_eq_square)
qed

section \<open>The rows of the table in binary64\<close>

lemma js_max_zero: "js_max (Fin 0) x = NaN \<or> js_le (Fin 0) (js_max (Fin 0) x)"
  by (cases x) simp_all

lemma bottle_row_b64_consumed:
  assumes "bottle_row_b64 b = Inr r" and "consumedPercent r = Some c"
  shows "\<exists>hw avg. maxAvgPercent b = Some hw \<and> avgCurrentPercent r = Some avg \<and>
           c = js_max (Fin 0) (b64_sub hw avg) \<and>
           consumedLiters r = Some (b64_mul (b64_div c (Fin 100)) (capacity b))"
  using assms by (auto simp: bottle_row_b64_def Let_def split: option.splits if_splits)

lemma bottle_row_b64_defined:
  assumes "bottle_row_b64 b = Inr r"
  shows "(consumedPercent r \<noteq> None) =
           (avgCurrentPercent r \<noteq> None \<and> maxAvgPercent b \<noteq> None)"
    and "(consumedLiters r \<noteq> None) =
           (avgCurrentPercent r \<noteq> None \<and> maxAvgPercent b \<noteq> None)"
  using assms by (auto simp: bottle_row_b64_def Let_def split: option.splits if_splits)

lemma sqrt_64: "sqrt 64 = 8"
  by (rule real_sqrt_unique) simp_all

lemma drawdown_cfa_b64:
  "calculateFilteredAverage_b64
     [Fin 80, Fin 80, Fin 80, Fin 80, Fin 80, Fin 80, Fin 80, Fin 80, Fin 60, Fin 60] =
   \<lparr>average = Some (Fin 76),
    filteredHistory =
      [Fin 80, Fin 80, Fin 80, Fin 80, Fin 80, Fin 80, Fin 80, Fin 80, Fin 60, Fin 60],
    removedCount = 0\<rparr>"
  by (simp add: calculateFilteredAverage_b64_def b64_sum_def b64_add_def b64_sub_def b64_mul_def
        b64_div_def b64_sq_def b64_sqrt_def js_sub_def sqrt_64 b64_eval)

lemma drawdown_row_b64:
  "bottle_row_b64
     \<lparr>percentHistory =
        [Fin 80, Fin 80, Fin 80, Fin 80, Fin 80, Fin 80, Fin 80, Fin 80, Fin 60, Fin 60],
      initialPercent = Some (Fin 80), maxAvgPercent = Some (Fin 80), capacity = Fin 1\<rparr> =
   Inr \<lparr>avgCurrentPercent = Some (Fin 76), outliers = 0,
        consumedPercent = Some (Fin 4),
        consumedLiters = Some (Fin (5764607523034235 / 144115188075855872))\<rparr>"
proof -
  have l: "b64_mul (b64_div (Fin 4) (Fin 100)) (Fin 1) = Fin (5764607523034235 / 144115188075855872)"
    by (simp add: b64_mul_def b64_div_def b64_eval)
  have c: "b64_sub (Fin 80) (Fin 76) = Fin 4"
    by (simp add: b64_sub_def js_sub_def b64_eval)
  show ?thesis
    by (simp add: bottle_row_b64_def is_valid_number_def drawdown_cfa_b64 Let_def c l)
qed

lemma overflow_cfa_b64:
  fixes h :: real
  assumes "h = 2 ^ 1023"
  shows "calculateFilteredAverage_b64
           [Fin h, Fin h, Fin h, Fin h, Fin h, Fin h, Fin h, Fin h, Fin h, Fin h] =
         \<lparr>average = Some PInf,
          filteredHistory = [Fin h, Fin h, Fin h, Fin h, Fin h, Fin h, Fin h, Fin h, Fin h, Fin h],
          removedCount = 0\<rparr>"
proof -
  have r1: "b64_round h = Fin h"
    unfolding assms by (simp add: b64_eval)
  have r2: "b64_round (2 * h) = PInf"
    unfolding assms by (simp add: b64_eval)
  show ?thesis
    by (simp add: calculateFilteredAverage_b64_def b64_sum_def b64_add_def b64_sub_def b64_mul_def
          b64_div_def b64_sq_def b64_sqrt_def js_sub_def Let_def r1 r2)
qed

text \<open>
  Ten readings of \<open>2\<^sup>1\<^sup>0\<^sup>2\<^sup>3\<close>: their sum overflows, and the average and the high-water
  average are both \<open>Infinity\<close>.
\<close>

lemma overflow_run:
  fixes h :: real
  assumes "h = 2 ^ 1023"
  shows "bottle_row_b64
           (bottle_after_b64 (Fin h)
              [Fin h, Fin h, Fin h, Fin h, Fin h, Fin h, Fin h, Fin h, Fin h]) =
         Inr \<lparr>avgCurrentPercent = Some PInf, outliers = 0,
              consumedPercent = Some NaN, consumedLiters = Some NaN\<rparr>"
proof -
  have run: "bottle_after_b64 (Fin h)
               [Fin h, Fin h, Fin h, Fin h, Fin h, Fin h, Fin h, Fin h, Fin h] =
             \<lparr>percentHistory =
                [Fin h, Fin h, Fin h, Fin h, Fin h, Fin h, Fin h, Fin h, Fin h, Fin h],
              initialPercent = Some (Fin h), maxAvgPercent = Some PInf, capacity = Fin 1\<rparr>"
    by (simp add: bottle_after_b64_def new_bottle_def ingest_b64_def ingest_valid_b64_def
          isValidPercent_def Let_def is_valid_number_def HISTORY_SIZE_def
          BOTTLE_CAPACITY_LITERS_def Math_max_def overflow_cfa_b64 [OF assms])
  show ?thesis
    unfolding run
    by (simp add: bottle_row_b64_def is_valid_number_def overflow_cfa_b64 [OF assms] Let_def
          b64_sub_def b64_mul_def b64_div_def js_sub_def)
qed

section \<open>Properties of the filtered average\<close>

text \<open>
  C1, as the program computes it. On a sequence of \<open>n\<close> samples the routine returns: for
  \<open>n = 0\<close>, no average, an empty retained set and removed count 0; for \<open>0 < n < 10\<close>, the mean
  of all samples as binary64 arithmetic computes it (the rounded sum from left to right,
  divided by \<open>n\<close>), all of them retained, removed count 0; for \<open>n \<ge> 10\<close>, the binary64 mean of
  exactly the samples whose rounded deviation from the binary64 mean is at most twice the
  binary64 population standard deviation, or no average when none is retained, with the number
  of discarded samples as removed count.
\<close>

theorem filtered_average_binary64:
  "calculateFilteredAverage_b64 xs =
     (if length xs = 0 then \<lparr>average = None, filteredHistory = [], removedCount = 0\<rparr>
      else if length xs < 10 then
        \<lparr>average = Some (b64_mean xs), filteredHistory = xs, removedCount = 0\<rparr>
      else
        \<lparr>average = (if b64_retained xs = [] then None else Some (b64_mean (b64_retained xs))),
         filteredHistory = b64_retained xs,
         removedCount = length (b64_discarded xs)\<rparr>)"
  by (rule calculateFilteredAverage_b64_eq)

text \<open>
  C1, counterexample to the contract in exact arithmetic. For eight readings of 80 and two of
  62 the mean is \<open>76.4\<close> and the standard deviation \<open>7.2\<close>, so both readings of 62 lie exactly
  twice the standard deviation from the mean: the contract retains all ten samples, with the
  average \<open>382 / 5\<close> and removed count 0. The program computes the deviation
  \<open>14.400000000000006\<close> and the threshold \<open>14.4\<close>, discards both, and returns the average 80
  with removed count 2.
\<close>

theorem filtered_average_contract_counterexample:
  "calculateFilteredAverage_b64 (map Fin [80, 80, 80, 80, 80, 80, 80, 80, 62, 62]) =
     \<lparr>average = Some (Fin 80),
      filteredHistory = map Fin [80, 80, 80, 80, 80, 80, 80, 80],
      removedCount = 2\<rparr> \<and>
   retained [80, 80, 80, 80, 80, 80, 80, 80, 62, 62] =
     [80, 80, 80, 80, 80, 80, 80, 80, 62, 62] \<and>
   mean_of (retained [80, 80, 80, 80, 80, 80, 80, 80, 62, 62]) = 382 / 5 \<and>
   length (discarded [80, 80, 80, 80, 80, 80, 80, 80, 62, 62]) = 0 \<and>
   calculateFilteredAverage_b64 (map Fin [80, 80, 80, 80, 80, 80, 80, 80, 62, 62]) \<noteq>
     \<lparr>average = Some (Fin (mean_of (retained [80, 80, 80, 80, 80, 80, 80, 80, 62, 62]))),
      filteredHistory = map Fin (retained [80, 80, 80, 80, 80, 80, 80, 80, 62, 62]),
      removedCount = length (discarded [80, 80, 80, 80, 80, 80, 80, 80, 62, 62])\<rparr>"
  using ce_cfa tie_exact by simp

text \<open>
  C9. On every non-empty list of finite samples the routine returns an average, which is a
  finite number, and retains at least one sample.
\<close>

theorem filtered_average_defined:
  "rs \<noteq> [] \<Longrightarrow>
     (\<exists>a. average (calculateFilteredAverage (map Fin rs)) = Some (Fin a)) \<and>
     filteredHistory (calculateFilteredAverage (map Fin rs)) \<noteq> []"
  using retained_nonempty [of rs] by (simp add: calculateFilteredAverage_Fin)

theorem filtered_average_defined_witness:
  "[10, 20, 30, 40, 50, 60, 70, 80, 90, 100 :: real] \<noteq> [] \<and>
   (\<exists>a. average (calculateFilteredAverage
           (map Fin [10, 20, 30, 40, 50, 60, 70, 80, 90, 100])) = Some (Fin a)) \<and>
   filteredHistory (calculateFilteredAverage
      (map Fin [10, 20, 30, 40, 50, 60, 70, 80, 90, 100])) \<noteq> []"
  using filtered_average_defined [of "[10, 20, 30, 40, 50, 60, 70, 80, 90, 100]"] by simp

section \<open>Properties of ingesting a reading\<close>

text \<open>
  C2. Once \<open>maxAvgPercent\<close> (the high-water average) is set, a valid reading never lowers
  it: afterwards it is still set, to the old value or to a value that compares greater; when
  the old value is a finite number, so is the new one, and it is at least the old one.
\<close>

theorem high_water_ratchet:
  assumes "isValidPercent p" and "maxAvgPercent b = Some old"
  shows "\<exists>new. maxAvgPercent (ingest p b) = Some new \<and> (new = old \<or> js_gt new old) \<and>
           (\<forall>a. old = Fin a \<longrightarrow> (\<exists>c. new = Fin c \<and> a \<le> c))"
  using assms maxAvgPercent_ingest_valid [of b old p] by (simp add: ingest_def)

theorem high_water_ratchet_witness:
  "isValidPercent (Fin 100) \<and>
   maxAvgPercent \<lparr>percentHistory = map Fin [10, 20, 30, 40, 50, 60, 70, 80, 90, 100],
                  initialPercent = Some (Fin 100), maxAvgPercent = Some (Fin 55),
                  capacity = Fin 1\<rparr> = Some (Fin 55) \<and>
   (\<exists>new. maxAvgPercent (ingest (Fin 100)
             \<lparr>percentHistory = map Fin [10, 20, 30, 40, 50, 60, 70, 80, 90, 100],
              initialPercent = Some (Fin 100), maxAvgPercent = Some (Fin 55),
              capacity = Fin 1\<rparr>) = Some new \<and>
          (new = Fin 55 \<or> js_gt new (Fin 55)) \<and>
          (\<forall>a. Fin 55 = Fin a \<longrightarrow> (\<exists>c. new = Fin c \<and> a \<le> c)))"
proof -
  have v: "isValidPercent (Fin 100)" by (simp add: isValidPercent_def)
  have m: "maxAvgPercent \<lparr>percentHistory = map Fin [10, 20, 30, 40, 50, 60, 70, 80, 90, 100],
                  initialPercent = Some (Fin 100), maxAvgPercent = Some (Fin 55),
                  capacity = Fin 1\<rparr> = Some (Fin 55)" by simp
  from high_water_ratchet [OF v m] v m show ?thesis by blast
qed

text \<open>
  C3. After an invalid reading, if fewer than \<open>HISTORY_SIZE\<close> valid numbers remain in the
  eroded history, \<open>maxAvgPercent\<close> is \<open>null\<close>, whatever it was before.
\<close>

theorem invalid_clears_high_water:
  assumes "\<not> isValidPercent p"
    and "length (filter is_valid_number (percentHistory (ingest p b))) < HISTORY_SIZE"
  shows "maxAvgPercent (ingest p b) = None"
  using assms by (simp add: ingest_def ingest_invalid_def Let_def split: if_splits)

theorem invalid_clears_high_water_witness:
  "\<not> isValidPercent NaN \<and>
   length (filter is_valid_number (percentHistory (ingest NaN
     \<lparr>percentHistory =
        [Fin 80, Fin 80, Fin 80, Fin 80, Fin 80, Fin 80, Fin 80, Fin 80, Fin 60, Fin 60],
      initialPercent = Some (Fin 80), maxAvgPercent = Some (Fin 80),
      capacity = Fin 1\<rparr>))) < HISTORY_SIZE \<and>
   maxAvgPercent (ingest NaN
     \<lparr>percentHistory =
        [Fin 80, Fin 80, Fin 80, Fin 80, Fin 80, Fin 80, Fin 80, Fin 80, Fin 60, Fin 60],
      initialPercent = Some (Fin 80), maxAvgPercent = Some (Fin 80),
      capacity = Fin 1\<rparr>) = None"
proof -
  have v: "\<not> isValidPercent NaN" by (simp add: isValidPercent_def)
  have l: "length (filter is_valid_number (percentHistory (ingest NaN
     \<lparr>percentHistory =
        [Fin 80, Fin 80, Fin 80, Fin 80, Fin 80, Fin 80, Fin 80, Fin 80, Fin 60, Fin 60],
      initialPercent = Some (Fin 80), maxAvgPercent = Some (Fin 80),
      capacity = Fin 1\<rparr>))) < HISTORY_SIZE"
    by (simp add: ingest_def isValidPercent_def percentHistory_ingest_invalid
          is_valid_number_def HISTORY_SIZE_def)
  from invalid_clears_high_water [OF v l] v l show ?thesis by blast
qed

text \<open>
  C10. In a state whose history holds at most \<open>HISTORY_SIZE\<close> entries, an invalid reading
  always leaves \<open>maxAvgPercent\<close> \<open>null\<close>: fewer than \<open>HISTORY_SIZE\<close> valid numbers remain
  after the erosion, so the branch that averages them without a filter is not taken.
\<close>

theorem invalid_always_clears:
  assumes "length (percentHistory b) \<le> HISTORY_SIZE" and "\<not> isValidPercent p"
  shows "length (filter is_valid_number (percentHistory (ingest p b))) < HISTORY_SIZE \<and>
         maxAvgPercent (ingest p b) = None"
  using assms ingest_invalid_bounded [of b] by (simp add: ingest_def)

theorem invalid_always_clears_witness:
  "length (percentHistory
     \<lparr>percentHistory = map Fin [10, 20, 30, 40, 50, 60, 70, 80, 90, 100],
      initialPercent = Some (Fin 100), maxAvgPercent = Some (Fin 55),
      capacity = Fin 1\<rparr>) \<le> HISTORY_SIZE \<and>
   \<not> isValidPercent NaN \<and>
   length (filter is_valid_number (percentHistory (ingest NaN
     \<lparr>percentHistory = map Fin [10, 20, 30, 40, 50, 60, 70, 80, 90, 100],
      initialPercent = Some (Fin 100), maxAvgPercent = Some (Fin 55),
      capacity = Fin 1\<rparr>))) < HISTORY_SIZE \<and>
   maxAvgPercent (ingest NaN
     \<lparr>percentHistory = map Fin [10, 20, 30, 40, 50, 60, 70, 80, 90, 100],
      initialPercent = Some (Fin 100), maxAvgPercent = Some (Fin 55),
      capacity = Fin 1\<rparr>) = None"
proof -
  have l: "length (percentHistory
     \<lparr>percentHistory = map Fin [10, 20, 30, 40, 50, 60, 70, 80, 90, 100],
      initialPercent = Some (Fin 100), maxAvgPercent = Some (Fin 55),
      capacity = Fin 1\<rparr>) \<le> HISTORY_SIZE" by (simp add: HISTORY_SIZE_def)
  have v: "\<not> isValidPercent NaN" by (simp add: isValidPercent_def)
  from invalid_always_clears [OF l v] l v show ?thesis by blast
qed

text \<open>
  C7. The history of a bottle never holds more than \<open>HISTORY_SIZE\<close> readings, after any
  first reading and any readings that follow. The first reading of a colour starts the
  history, with that reading when it is valid and empty otherwise. Afterwards a valid reading
  is appended at the end, and the oldest entry is dropped when the history was full; an
  invalid reading appends nothing and drops the oldest entry.
\<close>

theorem history_window:
  "length (percentHistory (bottle_after first rest)) \<le> HISTORY_SIZE \<and>
   bottle_after first [] = new_bottle first \<and>
   bottle_after first (rest @ [p]) = ingest p (bottle_after first rest) \<and>
   percentHistory (new_bottle p) = (if isValidPercent p then [p] else []) \<and>
   percentHistory (ingest p b) =
     (if isValidPercent p then
        (if length (percentHistory b) < HISTORY_SIZE then percentHistory b @ [p]
         else drop 1 (percentHistory b) @ [p])
      else drop 1 (percentHistory b))"
  using bottle_inv_bottle_after [of first rest]
  by (simp add: bottle_inv_def bottle_after_def new_bottle_def ingest_def
        percentHistory_ingest_valid percentHistory_ingest_invalid)

text \<open>
  C8 (evaluation at the failing input). A bottle created by an invalid reading has no
  \<open>initialPercent\<close>. When the valid reading 0 follows, the maximum of the history is 0, the
  comparison \<open>0 > null\<close> is false, and \<open>initialPercent\<close> stays \<open>null\<close> instead of becoming 0.
\<close>

theorem initial_level_stays_unset:
  "\<not> isValidPercent NaN \<and> isValidPercent (Fin 0) \<and>
   onData_items ''red'' [NaN, Fin 0] [] =
     [(''red'',
       \<lparr>percentHistory = [Fin 0], initialPercent = None, maxAvgPercent = None,
        capacity = Fin 1\<rparr>)] \<and>
   Math_max [Fin 0] = Fin 0"
  by (simp add: onData_item_def new_bottle_def ingest_def ingest_valid_def isValidPercent_def
        Let_def is_valid_number_def HISTORY_SIZE_def BOTTLE_CAPACITY_LITERS_def Math_max_def)

section \<open>Properties of the table\<close>

text \<open>
  C4, as the program computes it. In every row that the table shows for a bottle, the consumed
  percentage and the consumed litres are defined exactly when the current average is known and
  \<open>maxAvgPercent\<close> is set. When defined, the consumed percentage is
  \<open>Math.max(0, maxAvgPercent - average)\<close> in binary64, which is at least 0 or is \<open>NaN\<close>, and
  the consumed litres are that percentage divided by 100 and multiplied by the capacity, in
  binary64.
\<close>

theorem consumption_defined_b64:
  assumes "bottle_row_b64 b = Inr r"
  shows "(consumedPercent r \<noteq> None) =
           (avgCurrentPercent r \<noteq> None \<and> maxAvgPercent b \<noteq> None) \<and>
         (consumedLiters r \<noteq> None) =
           (avgCurrentPercent r \<noteq> None \<and> maxAvgPercent b \<noteq> None) \<and>
         (\<forall>c. consumedPercent r = Some c \<longrightarrow>
            (\<exists>hw avg. maxAvgPercent b = Some hw \<and> avgCurrentPercent r = Some avg \<and>
               c = js_max (Fin 0) (b64_sub hw avg) \<and>
               (c = NaN \<or> js_le (Fin 0) c) \<and>
               consumedLiters r = Some (b64_mul (b64_div c (Fin 100)) (capacity b))))"
proof -
  have "\<exists>hw avg. maxAvgPercent b = Some hw \<and> avgCurrentPercent r = Some avg \<and>
               c = js_max (Fin 0) (b64_sub hw avg) \<and>
               (c = NaN \<or> js_le (Fin 0) c) \<and>
               consumedLiters r = Some (b64_mul (b64_div c (Fin 100)) (capacity b))"
    if "consumedPercent r = Some c" for c
  proof -
    from bottle_row_b64_consumed [OF assms that] obtain hw avg where
      h: "maxAvgPercent b = Some hw" "avgCurrentPercent r = Some avg"
         "c = js_max (Fin 0) (b64_sub hw avg)"
         "consumedLiters r = Some (b64_mul (b64_div c (Fin 100)) (capacity b))"
      by blast
    from h(3) js_max_zero [of "b64_sub hw avg"] have "c = NaN \<or> js_le (Fin 0) c" by simp
    with h show ?thesis by blast
  qed
  with bottle_row_b64_defined [OF assms] show ?thesis by blast
qed

theorem consumption_defined_b64_witness:
  "bottle_row_b64
     \<lparr>percentHistory =
        [Fin 80, Fin 80, Fin 80, Fin 80, Fin 80, Fin 80, Fin 80, Fin 80, Fin 60, Fin 60],
      initialPercent = Some (Fin 80), maxAvgPercent = Some (Fin 80), capacity = Fin 1\<rparr> =
     Inr \<lparr>avgCurrentPercent = Some (Fin 76), outliers = 0,
          consumedPercent = Some (Fin 4),
          consumedLiters = Some (Fin (5764607523034235 / 144115188075855872))\<rparr> \<and>
   Fin 4 = js_max (Fin 0) (b64_sub (Fin 80) (Fin 76)) \<and>
   js_le (Fin 0) (Fin 4) \<and>
   Fin (5764607523034235 / 144115188075855872) =
     b64_mul (b64_div (Fin 4) (Fin 100)) (Fin 1)"
proof -
  have row: "bottle_row_b64
     \<lparr>percentHistory =
        [Fin 80, Fin 80, Fin 80, Fin 80, Fin 80, Fin 80, Fin 80, Fin 80, Fin 60, Fin 60],
      initialPercent = Some (Fin 80), maxAvgPercent = Some (Fin 80), capacity = Fin 1\<rparr> =
     Inr \<lparr>avgCurrentPercent = Some (Fin 76), outliers = 0,
          consumedPercent = Some (Fin 4),
          consumedLiters = Some (Fin (5764607523034235 / 144115188075855872))\<rparr>"
    by (rule drawdown_row_b64)
  have nonneg: "js_le (Fin 0) (Fin 4)" by simp
  from consumption_defined_b64 [OF row]
  have "Fin 4 = js_max (Fin 0) (b64_sub (Fin 80) (Fin 76)) \<and>
        Fin (5764607523034235 / 144115188075855872) =
          b64_mul (b64_div (Fin 4) (Fin 100)) (Fin 1)"
    by simp
  with row nonneg show ?thesis by blast
qed

text \<open>
  C4, counterexample to \<open>consumedPercent \<ge> 0\<close>. After ten readings of \<open>2\<^sup>1\<^sup>0\<^sup>2\<^sup>3\<close>, which is a
  finite binary64 number, the sum of the history has overflowed: the average and
  \<open>maxAvgPercent\<close> are both \<open>Infinity\<close>, their difference is \<open>NaN\<close>, and the row shows a
  consumed percentage that is defined and is not at least 0.
\<close>

theorem consumption_nonneg_counterexample:
  "bottle_row_b64
     (bottle_after_b64 (Fin (2 ^ 1023))
        [Fin (2 ^ 1023), Fin (2 ^ 1023), Fin (2 ^ 1023), Fin (2 ^ 1023), Fin (2 ^ 1023),
         Fin (2 ^ 1023), Fin (2 ^ 1023), Fin (2 ^ 1023), Fin (2 ^ 1023)]) =
     Inr \<lparr>avgCurrentPercent = Some PInf, outliers = 0,
          consumedPercent = Some NaN, consumedLiters = Some NaN\<rparr> \<and>
   \<not> js_le (Fin 0) NaN"
proof (rule conjI)
  show "bottle_row_b64
     (bottle_after_b64 (Fin (2 ^ 1023))
        [Fin (2 ^ 1023), Fin (2 ^ 1023), Fin (2 ^ 1023), Fin (2 ^ 1023), Fin (2 ^ 1023),
         Fin (2 ^ 1023), Fin (2 ^ 1023), Fin (2 ^ 1023), Fin (2 ^ 1023)]) =
     Inr \<lparr>avgCurrentPercent = Some PInf, outliers = 0,
          consumedPercent = Some NaN, consumedLiters = Some NaN\<rparr>"
    by (rule overflow_run [OF refl])
  show "\<not> js_le (Fin 0) NaN" by simp
qed

text \<open>
  C5 (evaluation at the failing input). The reading \<open>Infinity\<close> passes the validity test.
  Arriving as the tenth reading of a bottle, it makes the filtered average \<open>null\<close>, and the
  next call of \<open>updateBottleTable\<close> raises a \<open>TypeError\<close>.
\<close>

theorem infinite_reading_raises:
  "isValidPercent PInf \<and>
   updateBottleTable (onData_items ''red''
     [Fin 50, Fin 50, Fin 50, Fin 50, Fin 50, Fin 50, Fin 50, Fin 50, Fin 50, PInf] []) =
     Inl TypeError"
  by (simp add: onData_item_def new_bottle_def ingest_def ingest_valid_def isValidPercent_def
        Let_def is_valid_number_def HISTORY_SIZE_def BOTTLE_CAPACITY_LITERS_def Math_max_def
        infinite_sample_cfa bottle_row_def)

text \<open>
  C6. The readings 10, 20, ..., 100 for a colour not seen before leave the bottle with the
  high-water average 55; the table then shows the current average 55 with no sample removed.
\<close>

theorem scenario_A:
  "onData_items ''red''
     [Fin 10, Fin 20, Fin 30, Fin 40, Fin 50, Fin 60, Fin 70, Fin 80, Fin 90, Fin 100] [] =
     [(''red'',
       \<lparr>percentHistory =
          [Fin 10, Fin 20, Fin 30, Fin 40, Fin 50, Fin 60, Fin 70, Fin 80, Fin 90, Fin 100],
        initialPercent = Some (Fin 100), maxAvgPercent = Some (Fin 55),
        capacity = Fin 1\<rparr>)] \<and>
   updateBottleTable (onData_items ''red''
     [Fin 10, Fin 20, Fin 30, Fin 40, Fin 50, Fin 60, Fin 70, Fin 80, Fin 90, Fin 100] []) =
     Inr [(''red'',
           \<lparr>avgCurrentPercent = Some (Fin 55), outliers = 0,
            consumedPercent = Some (Fin 0), consumedLiters = Some (Fin 0)\<rparr>)]"
  by (simp add: onData_item_def new_bottle_def ingest_def ingest_valid_def isValidPercent_def
        Let_def is_valid_number_def HISTORY_SIZE_def BOTTLE_CAPACITY_LITERS_def Math_max_def
        scenario_cfa bottle_row_def js_sub_def)

end
